theory Spec2Isabelle
  imports Main
begin

section \<open>The video generation controller of \<^verbatim>\<open>App.js\<close>\<close>

text \<open>
  The development embeds the job lifecycle code of the component
  \<^verbatim>\<open>VideoGeneratorPage\<close> (\<^verbatim>\<open>src/frontend/src/App.js\<close>): the diagnostic log
  (\<^verbatim>\<open>addDebugLog\<close>), the submission (\<^verbatim>\<open>startVideoGeneration\<close>), the status query
  (\<^verbatim>\<open>pollVideoStatus\<close>), the run itself (\<^verbatim>\<open>realVideoGeneration\<close> with its interval
  callback and its timeout callback), the submit command (\<^verbatim>\<open>handleSubmit\<close>) and the
  button that invokes it.

  The code is asynchronous. Every \<^verbatim>\<open>await\<close> of a network exchange cuts a
  function in two: the part that runs until the request is issued, and the part that runs
  when the exchange settles. The browser's event loop is a list of events, each handled to
  completion; what the network answered is the payload of the event. React state is a
  record; each call of \<^verbatim>\<open>realVideoGeneration\<close> owns a closure (the variables
  \<^verbatim>\<open>currentJobId\<close>, \<^verbatim>\<open>pollCount\<close>, \<^verbatim>\<open>consecutiveErrors\<close>,
  \<^verbatim>\<open>pollInterval\<close> and the props captured when the handler was created), kept in a
  list indexed by the order of the calls.

  Where the functions are in the source: \<^verbatim>\<open>addDebugLog\<close> lines 45--53,
  \<^verbatim>\<open>startVideoGeneration\<close> 56--78, \<^verbatim>\<open>pollVideoStatus\<close> 80--96,
  \<^verbatim>\<open>checkAllJobs\<close> 98--109, \<^verbatim>\<open>realVideoGeneration\<close> 111--222 (the interval
  callback 143--203, the timeout callback 206--215, the outer \<^verbatim>\<open>catch\<close> 217--221),
  \<^verbatim>\<open>handleSubmit\<close> 224--236, the button 447--449, the initial state 676--691.

  Left out: the copy of each log line that goes to the console; the rendering of the log
  messages as text (each message is kept as its template with the interpolated values);
  the other pages and the health check that sets \<^verbatim>\<open>backendConnected\<close>; bodies whose
  fields do not have the types the code expects. The two or three \<^verbatim>\<open>await\<close>s inside
  one exchange (the response, then its body) are one event. Time is not measured: an event
  list fixes an order, and every order the timers and the network can produce is an event
  list.
\<close>

subsection \<open>Text\<close>

text \<open>
  The topic is typed by the user and is trimmed by \<^verbatim>\<open>String.prototype.trim\<close>:
  it is kept as a list of UTF-16 code units. Identifiers, messages and the clock reading
  are plain strings.
\<close>

type_synonym js_text = "nat list"

definition is_js_whitespace :: "nat \<Rightarrow> bool" where
  "is_js_whitespace u =
     (if u \<in> set [9, 10, 11, 12, 13, 32, 160, 5760, 8232, 8233, 8239, 8287, 12288, 65279]
      then True else (8192 \<le> u \<and> u \<le> 8202))"

definition trim :: "js_text \<Rightarrow> js_text" where
  "trim s = rev (dropWhile is_js_whitespace (rev (dropWhile is_js_whitespace s)))"

text \<open>\<^verbatim>\<open>a || b\<close> on a string that may be \<^verbatim>\<open>undefined\<close>: the empty string is falsy.\<close>

fun js_or :: "string option \<Rightarrow> string \<Rightarrow> string" where
  "js_or None d = d"
| "js_or (Some s) d = (if s = [] then d else s)"

text \<open>Template rendering of a number, as in \<^verbatim>\<open>`${formData.duration}:00`\<close>.\<close>

definition digit :: "nat \<Rightarrow> char" where
  "digit d = ''0123456789'' ! d"

function show_nat :: "nat \<Rightarrow> string" where
  "show_nat n = (if n < 10 then [digit n] else show_nat (n div 10) @ [digit (n mod 10)])"
  by pat_completeness auto
termination
  by (relation "measure id") auto

declare show_nat.simps [simp del]

definition API_BASE_URL :: string where
  "API_BASE_URL = ''http://localhost:8000''"

subsection \<open>Data\<close>

record form_data =
  topic :: js_text
  level :: nat
  duration :: nat
  subtitleStyle :: string
  wpm :: nat
  dryRun :: bool

text \<open>The object \<^verbatim>\<open>videoRequest\<close> built at the start of a run.\<close>

record video_request =
  rq_topic :: js_text
  rq_level :: nat
  rq_duration :: nat
  rq_subtitle_style :: string
  rq_wpm :: nat
  rq_dry_run :: bool

text \<open>
  What \<^verbatim>\<open>response.json()\<close> gives: the parsed object, or a rejection with the
  parser's message.
\<close>

datatype 'a body = Json 'a | NotJson string

text \<open>The bodies the code reads fields of: \<^verbatim>\<open>errorData.detail\<close>,
  \<^verbatim>\<open>startResponse.job_id\<close>, and the status snapshot with \<^verbatim>\<open>status\<close>,
  \<^verbatim>\<open>progress\<close>, \<^verbatim>\<open>current_step\<close> and \<^verbatim>\<open>error\<close>. An absent key is
  \<open>None\<close>.\<close>

record error_json =
  detail :: "string option"

record start_json =
  job_id :: string

record job_status =
  js_status :: string
  js_progress :: "int option"
  js_current_step :: "string option"
  js_error :: "string option"

text \<open>How an exchange settles: \<^verbatim>\<open>fetch\<close> rejects (with the message of its error),
  or a response arrives with its \<^verbatim>\<open>status\<close> code, \<^verbatim>\<open>ok\<close> or not.\<close>

datatype submit_outcome =
    SubmitNetworkError string
  | SubmitNotOk nat "error_json body"
  | SubmitOk nat "start_json body"

datatype poll_outcome =
    PollNetworkError string
  | PollNotOk nat string
  | PollOk nat "job_status body"

datatype jobs_outcome =
    JobsNetworkError string
  | JobsNotOk
  | JobsOk "string body"

datatype fetch =
    PostGenerateVideo video_request
  | GetVideoStatus string
  | GetJobs

datatype severity = Info | Success | Warning | Error

text \<open>
  The messages of the diagnostic log, one constructor for each call of
  \<^verbatim>\<open>addDebugLog\<close> in the code, with the values its template interpolates.
\<close>

datatype log_msg =
    StartingWithRequest video_request
  | PostResponse nat
  | ErrorResponse error_json
  | GenerationStarted start_json
  | PollingStatusFor string
  | GetStatusResponse string nat
  | StatusPollFailed string
  | StatusUpdate job_status
  | FetchingAllJobs
  | AllJobs string
  | FailedToFetchJobs string
  | StartingProcess
  | JobCreated string
  | PollAttempt nat string
  | ProgressIs int
  | GenerationCompleted
  | VideoGenerationFailed "string option"
  | LongerThanExpected
  | MuchLongerThanExpected
  | PollError nat nat string
  | TimeoutReached
  | GenerationFailed string

record log_entry =
  time :: string
  message :: log_msg
  type :: severity

record generated_video =
  title :: js_text
  video_duration :: string
  video_jobId :: string
  downloadUrl :: string
  video_status :: string

text \<open>An error thrown out of an asynchronous timer callback: nothing catches it.\<close>

datatype uncaught = PollingFailedAfter nat string

text \<open>The closure of one call of \<^verbatim>\<open>realVideoGeneration\<close>.\<close>

record run =
  captured_formData :: form_data
  captured_isGenerating :: bool
  awaitingSubmit :: bool
  currentJobId :: "string option"
  pollInterval :: "nat option"
  timeoutTimer :: "nat option"
  pollCount :: nat
  consecutiveErrors :: nat
  pollsInFlight :: nat
  jobsInFlight :: nat

text \<open>
  The React state the component reads and writes, and the part of the browser it uses:
  the clock, the timers, the requests issued so far (each with the run that issued it),
  and the errors no handler caught.
\<close>

record app =
  formData :: form_data
  error :: string
  isGenerating :: bool
  progress :: int
  currentStep :: string
  generatedVideo :: "generated_video option"
  backendConnected :: bool
  debugLogs :: "log_entry list"
  jobId :: "string option"
  now :: string
  nextTimer :: nat
  intervals :: "nat list"
  timeouts :: "nat list"
  runs :: "run list"
  fetches :: "(nat \<times> fetch) list"
  unhandled :: "uncaught list"

definition lookup_run :: "app \<Rightarrow> nat \<Rightarrow> run option" where
  "lookup_run st r = (if r < length (runs st) then Some (runs st ! r) else None)"

definition update_run :: "nat \<Rightarrow> (run \<Rightarrow> run) \<Rightarrow> app \<Rightarrow> app" where
  "update_run r f st = st\<lparr>runs := (runs st)[r := f (runs st ! r)]\<rparr>"

definition clearInterval :: "nat \<Rightarrow> app \<Rightarrow> app" where
  "clearInterval t st = st\<lparr>intervals := removeAll t (intervals st)\<rparr>"

definition issue :: "nat \<Rightarrow> fetch \<Rightarrow> app \<Rightarrow> app" where
  "issue r q st = st\<lparr>fetches := fetches st @ [(r, q)]\<rparr>"

subsection \<open>The diagnostic log\<close>

text \<open>\<^verbatim>\<open>prev.slice(-n)\<close>: the last \<open>n\<close> elements, all of them when there are fewer.\<close>

definition slice_last :: "nat \<Rightarrow> 'a list \<Rightarrow> 'a list" where
  "slice_last n xs = drop (length xs - n) xs"

text \<open>The updater \<^verbatim>\<open>prev => [...prev.slice(-20), entry]\<close>.\<close>

definition append_entry :: "'a \<Rightarrow> 'a list \<Rightarrow> 'a list" where
  "append_entry e prev = slice_last 20 prev @ [e]"

definition addDebugLog :: "log_msg \<Rightarrow> severity \<Rightarrow> app \<Rightarrow> app" where
  "addDebugLog m t st =
     st\<lparr>debugLogs := append_entry \<lparr>time = now st, message = m, type = t\<rparr> (debugLogs st)\<rparr>"

subsection \<open>Submission\<close>

definition maxConsecutiveErrors :: nat where
  "maxConsecutiveErrors = 3"

definition new_run :: "app \<Rightarrow> run" where
  "new_run st =
     \<lparr>captured_formData = formData st, captured_isGenerating = isGenerating st,
      awaitingSubmit = True, currentJobId = None, pollInterval = None, timeoutTimer = None,
      pollCount = 0, consecutiveErrors = 0, pollsInFlight = 0, jobsInFlight = 0\<rparr>"

definition videoRequest :: "form_data \<Rightarrow> video_request" where
  "videoRequest fd =
     \<lparr>rq_topic = topic fd, rq_level = level fd, rq_duration = duration fd,
      rq_subtitle_style = subtitleStyle fd, rq_wpm = wpm fd, rq_dry_run = dryRun fd\<rparr>"

text \<open>
  \<^verbatim>\<open>realVideoGeneration\<close> up to the \<^verbatim>\<open>await fetch\<close> of
  \<^verbatim>\<open>startVideoGeneration\<close>: the state is reset, the two first entries are logged and
  the POST is issued.
\<close>

definition realVideoGeneration :: "app \<Rightarrow> app" where
  "realVideoGeneration st =
     (let r = length (runs st);
          st1 = st\<lparr>isGenerating := True, progress := 0, error := [], generatedVideo := None,
                   debugLogs := [], jobId := None, runs := runs st @ [new_run st]\<rparr>;
          rq = videoRequest (formData st);
          st2 = addDebugLog StartingProcess Info st1;
          st3 = addDebugLog (StartingWithRequest rq) Info st2
      in issue r (PostGenerateVideo rq) st3)"

text \<open>
  The rest of \<^verbatim>\<open>startVideoGeneration\<close>, once the exchange has settled: it returns
  the parsed result, or throws (\<open>Inl\<close> the message of the error).
\<close>

fun startVideoGeneration :: "submit_outcome \<Rightarrow> app \<Rightarrow> (string + start_json) \<times> app" where
  "startVideoGeneration (SubmitNetworkError m) st = (Inl m, st)"
| "startVideoGeneration (SubmitNotOk code b) st =
     (let st1 = addDebugLog (PostResponse code) Error st
      in case b of
           NotJson m \<Rightarrow> (Inl m, st1)
         | Json errorData \<Rightarrow>
             (Inl (js_or (detail errorData) ''Failed to start video generation''),
              addDebugLog (ErrorResponse errorData) Error st1))"
| "startVideoGeneration (SubmitOk code b) st =
     (let st1 = addDebugLog (PostResponse code) Success st
      in case b of
           NotJson m \<Rightarrow> (Inl m, st1)
         | Json result \<Rightarrow> (Inr result, addDebugLog (GenerationStarted result) Success st1))"

text \<open>
  The rest of \<^verbatim>\<open>realVideoGeneration\<close>: on a result the job identifier is bound, the
  interval timer and then the timeout timer are created; on an error the outer
  \<^verbatim>\<open>catch\<close> publishes it.
\<close>

definition submitSettled :: "nat \<Rightarrow> submit_outcome \<Rightarrow> app \<Rightarrow> app" where
  "submitSettled r outcome st =
     (case lookup_run st r of
        None \<Rightarrow> st
      | Some c \<Rightarrow>
          if awaitingSubmit c then
            (case startVideoGeneration outcome st of
               (Inr startResponse, st1) \<Rightarrow>
                 (let jid = job_id startResponse;
                      st2 = st1\<lparr>jobId := Some jid\<rparr>;
                      st3 = addDebugLog (JobCreated jid) Success st2;
                      t = nextTimer st3;
                      st4 = st3\<lparr>nextTimer := t + 1, intervals := intervals st3 @ [t]\<rparr>;
                      d = nextTimer st4;
                      st5 = st4\<lparr>nextTimer := d + 1, timeouts := timeouts st4 @ [d]\<rparr>
                  in update_run r (\<lambda>c. c\<lparr>awaitingSubmit := False, currentJobId := Some jid,
                                            pollInterval := Some t, timeoutTimer := Some d\<rparr>) st5)
             | (Inl m, st1) \<Rightarrow>
                 (let st2 = addDebugLog (GenerationFailed m) Error st1;
                      st3 = st2\<lparr>error := js_or (Some m) ''Failed to generate video. Please try again.'',
                               isGenerating := False\<rparr>
                  in update_run r (\<lambda>c. c\<lparr>awaitingSubmit := False\<rparr>) st3))
          else st)"

subsection \<open>Polling\<close>

text \<open>
  The interval callback up to the \<^verbatim>\<open>await fetch\<close> of \<^verbatim>\<open>pollVideoStatus\<close>. It
  runs only while its timer is among the active ones. The callback is asynchronous: the
  next tick may come before this query has settled.
\<close>

definition pollTick :: "nat \<Rightarrow> app \<Rightarrow> app" where
  "pollTick r st =
     (case lookup_run st r of
        None \<Rightarrow> st
      | Some c \<Rightarrow>
          (case (pollInterval c, currentJobId c) of
             (Some t, Some jid) \<Rightarrow>
               if t \<in> set (intervals st) then
                 (let n = pollCount c + 1;
                      st1 = update_run r (\<lambda>c. c\<lparr>pollCount := n\<rparr>) st;
                      st2 = addDebugLog (PollAttempt n jid) Info st1;
                      st3 = addDebugLog (PollingStatusFor jid) Info st2;
                      st4 = issue r (GetVideoStatus jid) st3
                  in update_run r (\<lambda>c. c\<lparr>pollsInFlight := pollsInFlight c + 1\<rparr>) st4)
               else st
           | _ \<Rightarrow> st))"

text \<open>The rest of \<^verbatim>\<open>pollVideoStatus\<close>, once the exchange has settled.\<close>

fun pollVideoStatus :: "string \<Rightarrow> poll_outcome \<Rightarrow> app \<Rightarrow> (string + job_status) \<times> app" where
  "pollVideoStatus jid (PollNetworkError m) st = (Inl m, st)"
| "pollVideoStatus jid (PollNotOk code errorText) st =
     (let st1 = addDebugLog (GetStatusResponse jid code) Error st
      in (Inl ''Failed to get video status'', addDebugLog (StatusPollFailed errorText) Error st1))"
| "pollVideoStatus jid (PollOk code b) st =
     (let st1 = addDebugLog (GetStatusResponse jid code) Success st
      in case b of
           NotJson m \<Rightarrow> (Inl m, st1)
         | Json result \<Rightarrow> (Inr result, addDebugLog (StatusUpdate result) Info st1))"

text \<open>\<^verbatim>\<open>checkAllJobs\<close> up to its \<^verbatim>\<open>await fetch\<close>, and once that has settled;
  it catches its own errors.\<close>

definition checkAllJobs :: "nat \<Rightarrow> app \<Rightarrow> app" where
  "checkAllJobs r st =
     (let st1 = addDebugLog FetchingAllJobs Info st;
          st2 = issue r GetJobs st1
      in update_run r (\<lambda>c. c\<lparr>jobsInFlight := jobsInFlight c + 1\<rparr>) st2)"

definition jobsSettled :: "nat \<Rightarrow> jobs_outcome \<Rightarrow> app \<Rightarrow> app" where
  "jobsSettled r outcome st =
     (case lookup_run st r of
        None \<Rightarrow> st
      | Some c \<Rightarrow>
          if 0 < jobsInFlight c then
            (let st1 = update_run r (\<lambda>c. c\<lparr>jobsInFlight := jobsInFlight c - 1\<rparr>) st
             in case outcome of
                  JobsNetworkError m \<Rightarrow> addDebugLog (FailedToFetchJobs m) Error st1
                | JobsNotOk \<Rightarrow> st1
                | JobsOk (NotJson m) \<Rightarrow> addDebugLog (FailedToFetchJobs m) Error st1
                | JobsOk (Json data) \<Rightarrow> addDebugLog (AllJobs data) Info st1)
          else st)"

text \<open>The two warnings at the end of the \<^verbatim>\<open>try\<close> block.\<close>

definition longRunningCheck :: "nat \<Rightarrow> app \<Rightarrow> app" where
  "longRunningCheck r st =
     (if pollCount (runs st ! r) = 10 then addDebugLog LongerThanExpected Warning st
      else if pollCount (runs st ! r) = 40
        then checkAllJobs r (addDebugLog MuchLongerThanExpected Warning st)
      else st)"

text \<open>
  The \<^verbatim>\<open>try\<close> block of the interval callback after a status has been received:
  \<open>Some\<close> message when it throws.
\<close>

definition pollTry :: "nat \<Rightarrow> nat \<Rightarrow> string \<Rightarrow> job_status \<Rightarrow> app \<Rightarrow> string option \<times> app" where
  "pollTry r t jid status st =
     (let st0 = update_run r (\<lambda>c. c\<lparr>consecutiveErrors := 0\<rparr>) st;
          st1 = (case js_progress status of
                   Some p \<Rightarrow> addDebugLog (ProgressIs p) Success (st0\<lparr>progress := p\<rparr>)
                 | None \<Rightarrow> st0);
          st2 = (case js_current_step status of
                   Some s \<Rightarrow> if s = [] then st1 else st1\<lparr>currentStep := s\<rparr>
                 | None \<Rightarrow> st1)
      in if js_status status = ''completed'' then
           (let st3 = addDebugLog GenerationCompleted Success st2;
                st4 = clearInterval t st3;
                fd = captured_formData (runs st4 ! r);
                st5 = st4\<lparr>generatedVideo :=
                           Some \<lparr>title = topic fd,
                                 video_duration = show_nat (duration fd) @ '':00'',
                                 video_jobId = jid,
                                 downloadUrl = API_BASE_URL @ ''/api/video/'' @ jid,
                                 video_status = ''completed''\<rparr>\<rparr>;
                st6 = st5\<lparr>currentStep := ''Video ready for download!''\<rparr>;
                st7 = st6\<lparr>progress := 100\<rparr>;
                st8 = st7\<lparr>isGenerating := False\<rparr>
            in (None, longRunningCheck r st8))
         else if js_status status = ''failed'' then
           (let st3 = addDebugLog (VideoGenerationFailed (js_error status)) Error st2;
                st4 = clearInterval t st3
            in (Some (js_or (js_error status) ''Video generation failed''), st4))
         else (None, longRunningCheck r st2))"

text \<open>The \<^verbatim>\<open>catch\<close> block of the interval callback. Its \<^verbatim>\<open>throw\<close> leaves the
  callback.\<close>

definition pollCatch :: "nat \<Rightarrow> nat \<Rightarrow> string \<Rightarrow> app \<Rightarrow> app" where
  "pollCatch r t m st =
     (let n = consecutiveErrors (runs st ! r) + 1;
          st1 = update_run r (\<lambda>c. c\<lparr>consecutiveErrors := n\<rparr>) st;
          st2 = addDebugLog (PollError n maxConsecutiveErrors m) Error st1
      in if maxConsecutiveErrors \<le> n then
           (let st3 = clearInterval t st2
            in st3\<lparr>unhandled := unhandled st3 @ [PollingFailedAfter maxConsecutiveErrors m]\<rparr>)
         else st2)"

text \<open>The interval callback from the moment its status query settles.\<close>

definition pollSettled :: "nat \<Rightarrow> poll_outcome \<Rightarrow> app \<Rightarrow> app" where
  "pollSettled r outcome st =
     (case lookup_run st r of
        None \<Rightarrow> st
      | Some c \<Rightarrow>
          (case (pollInterval c, currentJobId c) of
             (Some t, Some jid) \<Rightarrow>
               if 0 < pollsInFlight c then
                 (let st0 = update_run r (\<lambda>c. c\<lparr>pollsInFlight := pollsInFlight c - 1\<rparr>) st
                  in case pollVideoStatus jid outcome st0 of
                       (Inl m, st1) \<Rightarrow> pollCatch r t m st1
                     | (Inr status, st1) \<Rightarrow>
                         (case pollTry r t jid status st1 of
                            (Some m, st2) \<Rightarrow> pollCatch r t m st2
                          | (None, st2) \<Rightarrow> st2))
               else st
           | _ \<Rightarrow> st))"

subsection \<open>The timeout\<close>

text \<open>
  The callback of \<^verbatim>\<open>setTimeout\<close>. It tests the timer identifier
  \<^verbatim>\<open>pollInterval\<close> (a number) and the value of \<^verbatim>\<open>isGenerating\<close> that the
  closure captured, the prop of the render in which the run was started.
\<close>

definition timeoutFired :: "nat \<Rightarrow> app \<Rightarrow> app" where
  "timeoutFired r st =
     (case lookup_run st r of
        None \<Rightarrow> st
      | Some c \<Rightarrow>
          (case (pollInterval c, timeoutTimer c) of
             (Some t, Some d) \<Rightarrow>
               if d \<in> set (timeouts st) then
                 (let st0 = st\<lparr>timeouts := removeAll d (timeouts st)\<rparr>
                  in if t = 0 then st0
                     else
                       (let st1 = addDebugLog TimeoutReached Warning st0;
                            st2 = clearInterval t st1
                        in if captured_isGenerating c then
                             st2\<lparr>error := ''Video generation timed out after 15 minutes. The video might still be processing. Check back later.'',
                                 isGenerating := False\<rparr>
                           else st2))
               else st
           | _ \<Rightarrow> st))"

subsection \<open>The submit command and its button\<close>

definition handleSubmit :: "app \<Rightarrow> app" where
  "handleSubmit st =
     (if trim (topic (formData st)) = [] then
        st\<lparr>error := ''Please enter a topic for your video''\<rparr>
      else if \<not> backendConnected st then
        st\<lparr>error := ''Backend is not connected. Please make sure the API server is running.''\<rparr>
      else realVideoGeneration st)"

text \<open>
  The button carries
  \<^verbatim>\<open>disabled={isGenerating || !formData.topic.trim() || !backendConnected}\<close>;
  a disabled button does not call its \<^verbatim>\<open>onClick\<close>.
\<close>

definition clickSubmit :: "app \<Rightarrow> app" where
  "clickSubmit st =
     (if isGenerating st then st
      else if trim (topic (formData st)) = [] then st
      else if backendConnected st then handleSubmit st
      else st)"

subsection \<open>The event loop\<close>

datatype event =
    Clock string
  | ClickSubmit
  | SubmitSettled nat submit_outcome
  | IntervalTick nat
  | PollSettled nat poll_outcome
  | JobsSettled nat jobs_outcome
  | TimeoutFired nat

fun step :: "app \<Rightarrow> event \<Rightarrow> app" where
  "step st (Clock s) = st\<lparr>now := s\<rparr>"
| "step st ClickSubmit = clickSubmit st"
| "step st (SubmitSettled r outcome) = submitSettled r outcome st"
| "step st (IntervalTick r) = pollTick r st"
| "step st (PollSettled r outcome) = pollSettled r outcome st"
| "step st (JobsSettled r outcome) = jobsSettled r outcome st"
| "step st (TimeoutFired r) = timeoutFired r st"

definition run_events :: "app \<Rightarrow> event list \<Rightarrow> app" where
  "run_events st evs = foldl step st evs"

text \<open>The state of \<^verbatim>\<open>KhanAcademyApp\<close> and of the page when they mount.\<close>

definition initial :: app where
  "initial =
     \<lparr>formData = \<lparr>topic = [], level = 2, duration = 5, subtitleStyle = ''modern'',
                   wpm = 150, dryRun = False\<rparr>,
      error = [], isGenerating = False, progress = 0, currentStep = [],
      generatedVideo = None, backendConnected = False, debugLogs = [], jobId = None,
      now = [], nextTimer = 1, intervals = [], timeouts = [], runs = [],
      fetches = [], unhandled = []\<rparr>"

text \<open>The page once the user has typed the topic \<^verbatim>\<open>derivatives\<close> and the health
  check has answered.\<close>

definition ready :: app where
  "ready = initial\<lparr>formData := (formData initial)
                      \<lparr>topic := [100, 101, 114, 105, 118, 97, 116, 105, 118, 101, 115]\<rparr>,
                   backendConnected := True\<rparr>"

subsection \<open>What an observer sees\<close>

text \<open>
  The part of the state the page renders (the error banner, the spinner, the progress bar,
  the finished video), the interval timers still active, the number of status queries
  issued so far and the errors that no handler caught.
\<close>

record snapshot =
  shown_error :: string
  shown_generating :: bool
  shown_progress :: int
  shown_video :: "generated_video option"
  active_intervals :: "nat list"
  status_queries :: nat
  uncaught_errors :: "uncaught list"

fun is_status_query :: "nat \<times> fetch \<Rightarrow> bool" where
  "is_status_query (r, GetVideoStatus jid) = True"
| "is_status_query (r, PostGenerateVideo rq) = False"
| "is_status_query (r, GetJobs) = False"

definition observe :: "app \<Rightarrow> snapshot" where
  "observe st =
     \<lparr>shown_error = error st, shown_generating = isGenerating st, shown_progress = progress st,
      shown_video = generatedVideo st, active_intervals = intervals st,
      status_queries = length (filter is_status_query (fetches st)),
      uncaught_errors = unhandled st\<rparr>"

text \<open>The requests one run has issued.\<close>

definition run_fetches :: "nat \<Rightarrow> app \<Rightarrow> fetch list" where
  "run_fetches r st = map snd (filter (\<lambda>q. fst q = r) (fetches st))"

subsection \<open>Answers of the service used in the scenarios\<close>

definition started :: "string \<Rightarrow> submit_outcome" where
  "started jid = SubmitOk 200 (Json \<lparr>job_id = jid\<rparr>)"

definition rejected :: "string \<Rightarrow> submit_outcome" where
  "rejected d = SubmitNotOk 400 (Json \<lparr>detail = Some d\<rparr>)"

definition reports :: "string \<Rightarrow> int option \<Rightarrow> poll_outcome" where
  "reports tag p =
     PollOk 200 (Json \<lparr>js_status = tag, js_progress = p, js_current_step = None, js_error = None\<rparr>)"

definition reports_failure :: "string \<Rightarrow> poll_outcome" where
  "reports_failure d =
     PollOk 200 (Json \<lparr>js_status = ''failed'', js_progress = None, js_current_step = None,
                      js_error = Some d\<rparr>)"

definition unreachable :: poll_outcome where
  "unreachable = PollNetworkError ''Failed to fetch''"

subsection \<open>Sequences of poll outcomes\<close>

text \<open>
  A status query fails in transport when the exchange does not give a status: the
  request is rejected, the response is not \<^verbatim>\<open>ok\<close>, or its body is not JSON.
\<close>

fun transport_failure :: "poll_outcome \<Rightarrow> bool" where
  "transport_failure (PollNetworkError m) = True"
| "transport_failure (PollNotOk code errorText) = True"
| "transport_failure (PollOk code (NotJson m)) = True"
| "transport_failure (PollOk code (Json status)) = False"

fun three_in_a_row :: "bool list \<Rightarrow> bool" where
  "three_in_a_row (a # b # c # rest) =
     (if a \<and> b \<and> c then True else three_in_a_row (b # c # rest))"
| "three_in_a_row rest = False"

text \<open>One tick of the interval whose query settles before the next tick, and a sequence
  of such ticks.\<close>

definition poll_round :: "nat \<Rightarrow> app \<Rightarrow> poll_outcome \<Rightarrow> app" where
  "poll_round r st outcome = pollSettled r outcome (pollTick r st)"

definition poll_rounds :: "nat \<Rightarrow> app \<Rightarrow> poll_outcome list \<Rightarrow> app" where
  "poll_rounds r st outcomes = foldl (poll_round r) st outcomes"

subsection \<open>Failed submissions\<close>

text \<open>A submission fails when the exchange does not give a start result: no response,
  a response that is not \<^verbatim>\<open>ok\<close>, or a body that is not JSON.\<close>

fun submit_failure :: "submit_outcome \<Rightarrow> bool" where
  "submit_failure (SubmitNetworkError m) = True"
| "submit_failure (SubmitNotOk code b) = True"
| "submit_failure (SubmitOk code (NotJson m)) = True"
| "submit_failure (SubmitOk code (Json result)) = False"

text \<open>The two fixed texts the code has for a submission that failed: the one of
  \<^verbatim>\<open>startVideoGeneration\<close> (line 72) and the one of the outer \<^verbatim>\<open>catch\<close>
  (line 219).\<close>

definition generic_reasons :: "string list" where
  "generic_reasons =
     [''Failed to start video generation'', ''Failed to generate video. Please try again.'']"

subsection \<open>States of the first run\<close>

text \<open>The page after the button was pressed (the POST is in flight), after the service
  has answered with the job \<^verbatim>\<open>job-1\<close> (between two polls), after a first poll that
  failed in transport, and after a first poll that reported progress 50 and a second tick
  (a status query is in flight).\<close>

definition submitting :: app where
  "submitting = run_events ready [ClickSubmit]"

definition polling :: app where
  "polling = run_events ready [ClickSubmit, SubmitSettled 0 (started ''job-1'')]"

definition failed_once :: app where
  "failed_once = run_events ready
     [ClickSubmit, SubmitSettled 0 (started ''job-1''), IntervalTick 0, PollSettled 0 unreachable]"

definition querying :: app where
  "querying = run_events ready
     [ClickSubmit, SubmitSettled 0 (started ''job-1''),
      IntervalTick 0, PollSettled 0 (reports ''running'' (Some 50)), IntervalTick 0]"

subsection \<open>The flags the closures captured\<close>

text \<open>For each run, in the order of their start, the value of \<^verbatim>\<open>isGenerating\<close> its
  closure holds.\<close>

definition flags :: "app \<Rightarrow> bool list" where
  "flags st = map captured_isGenerating (runs st)"

section \<open>Properties\<close>

subsection \<open>Frame lemmas\<close>

lemma addDebugLog_fields:
  "formData (addDebugLog m t st) = formData st"
  "error (addDebugLog m t st) = error st"
  "isGenerating (addDebugLog m t st) = isGenerating st"
  "progress (addDebugLog m t st) = progress st"
  "currentStep (addDebugLog m t st) = currentStep st"
  "generatedVideo (addDebugLog m t st) = generatedVideo st"
  "backendConnected (addDebugLog m t st) = backendConnected st"
  "jobId (addDebugLog m t st) = jobId st"
  "now (addDebugLog m t st) = now st"
  "nextTimer (addDebugLog m t st) = nextTimer st"
  "intervals (addDebugLog m t st) = intervals st"
  "timeouts (addDebugLog m t st) = timeouts st"
  "runs (addDebugLog m t st) = runs st"
  "fetches (addDebugLog m t st) = fetches st"
  "unhandled (addDebugLog m t st) = unhandled st"
  by (simp_all add: addDebugLog_def)

lemma ready_fields:
  "formData ready =
     \<lparr>topic = [100, 101, 114, 105, 118, 97, 116, 105, 118, 101, 115], level = 2, duration = 5,
      subtitleStyle = ''modern'', wpm = 150, dryRun = False\<rparr>"
  "error ready = []"
  "isGenerating ready = False"
  "progress ready = 0"
  "generatedVideo ready = None"
  "backendConnected ready = True"
  "nextTimer ready = 1"
  "intervals ready = []"
  "timeouts ready = []"
  "runs ready = []"
  "fetches ready = []"
  "unhandled ready = []"
  by (simp_all add: ready_def initial_def)

lemmas handler_defs =
  lookup_run_def update_run_def clearInterval_def issue_def
  maxConsecutiveErrors_def new_run_def videoRequest_def realVideoGeneration_def
  submitSettled_def pollTick_def checkAllJobs_def jobsSettled_def longRunningCheck_def
  pollTry_def pollCatch_def pollSettled_def timeoutFired_def handleSubmit_def clickSubmit_def
  trim_def is_js_whitespace_def addDebugLog_fields

lemmas prim_defs = update_run_def clearInterval_def issue_def addDebugLog_fields Let_def

lemmas scenario_defs =
  run_events_def ready_fields started_def rejected_def reports_def reports_failure_def
  unreachable_def observe_def

lemma lookup_runD: "lookup_run st r = Some c \<Longrightarrow> r < length (runs st) \<and> runs st ! r = c"
  by (simp add: lookup_run_def split: if_splits)

lemma longRunningCheck_fields:
  "formData (longRunningCheck r st) = formData st"
  "error (longRunningCheck r st) = error st"
  "isGenerating (longRunningCheck r st) = isGenerating st"
  "progress (longRunningCheck r st) = progress st"
  "currentStep (longRunningCheck r st) = currentStep st"
  "generatedVideo (longRunningCheck r st) = generatedVideo st"
  "backendConnected (longRunningCheck r st) = backendConnected st"
  "jobId (longRunningCheck r st) = jobId st"
  "now (longRunningCheck r st) = now st"
  "nextTimer (longRunningCheck r st) = nextTimer st"
  "intervals (longRunningCheck r st) = intervals st"
  "timeouts (longRunningCheck r st) = timeouts st"
  "unhandled (longRunningCheck r st) = unhandled st"
  "length (runs (longRunningCheck r st)) = length (runs st)"
  by (simp_all add: longRunningCheck_def checkAllJobs_def update_run_def issue_def
        addDebugLog_fields Let_def)

subsection \<open>The diagnostic log\<close>

lemma length_append_entry: "length (append_entry e prev) = min (length prev) 20 + 1"
  by (simp add: append_entry_def slice_last_def min_def)

lemma debugLogs_addDebugLog:
  "debugLogs (addDebugLog m t st) =
     append_entry \<lparr>time = now st, message = m, type = t\<rparr> (debugLogs st)"
  by (simp add: addDebugLog_def)

lemma length_fold_addDebugLog:
  "ms \<noteq> [] \<Longrightarrow>
   length (debugLogs (fold (\<lambda>m. addDebugLog m t) ms st)) =
     min (length (debugLogs st) + length ms) 21"
proof (induction ms arbitrary: st)
  case Nil
  then show ?case by simp
next
  case (Cons m ms)
  show ?case
  proof (cases "ms = []")
    case True
    then show ?thesis by (simp add: debugLogs_addDebugLog length_append_entry min_def)
  next
    case False
    from Cons.IH [OF False, of "addDebugLog m t st"]
    show ?thesis by (simp add: debugLogs_addDebugLog length_append_entry min_def)
  qed
qed

text \<open>Whatever is appended, the log is the last 21 of the appended entries, in the order
  of their insertion: the oldest are dropped first.\<close>

lemma append_entry_keeps_last:
  "foldl (\<lambda>log e. append_entry e log) [] es = drop (length es - 21) es"
proof (induction es rule: rev_induct)
  case Nil
  then show ?case by simp
next
  case (snoc e es)
  show ?case
  proof (cases "length es \<le> 20")
    case True
    with snoc show ?thesis by (simp add: append_entry_def slice_last_def)
  next
    case False
    then have "length es - 20 = Suc (length es - 21)" by simp
    with False snoc show ?thesis by (simp add: append_entry_def slice_last_def)
  qed
qed

text \<open>
  Claim C9. The log is meant to hold at most 20 entries (the code's own comment says
  ``Keep last 20 logs''). The updater keeps the last 20 entries of the previous log and
  then appends the new one, so the log holds 21 entries from the 21st append on: appending
  21 entries to the empty log of the initial page leaves all 21 of them.
\<close>

theorem addDebugLog_twenty_one_entries:
  "length (debugLogs (fold (\<lambda>m. addDebugLog m Info) (replicate 21 StartingProcess) initial)) = 21"
proof -
  have "replicate 21 StartingProcess \<noteq> []" by (simp add: numeral_eq_Suc)
  from length_fold_addDebugLog [OF this, of Info initial]
  show ?thesis by (simp add: initial_def)
qed

subsection \<open>The submit command\<close>

lemma dropWhile_all_iff: "(\<forall>x\<in>set (dropWhile P s). P x) \<longleftrightarrow> dropWhile P s = []"
proof
  assume a: "\<forall>x\<in>set (dropWhile P s). P x"
  show "dropWhile P s = []"
  proof (rule ccontr)
    assume n: "dropWhile P s \<noteq> []"
    then have "\<not> P (hd (dropWhile P s))" by (rule hd_dropWhile)
    moreover from n have "hd (dropWhile P s) \<in> set (dropWhile P s)" by simp
    ultimately show False using a by blast
  qed
next
  assume "dropWhile P s = []"
  then show "\<forall>x\<in>set (dropWhile P s). P x" by (auto dest: set_dropWhileD)
qed

lemma trim_Nil_iff: "trim s = [] \<longleftrightarrow> list_all is_js_whitespace s"
proof -
  have "trim s = [] \<longleftrightarrow> (\<forall>x\<in>set (dropWhile is_js_whitespace s). is_js_whitespace x)"
    by (simp add: trim_def dropWhile_eq_Nil_conv)
  also have "\<dots> \<longleftrightarrow> dropWhile is_js_whitespace s = []" by (rule dropWhile_all_iff)
  also have "\<dots> \<longleftrightarrow> list_all is_js_whitespace s"
    by (simp add: dropWhile_eq_Nil_conv list_all_iff)
  finally show ?thesis .
qed

text \<open>
  Claim C10. When the topic is empty or made of whitespace only, or when the backend is
  reported disconnected, \<^verbatim>\<open>handleSubmit\<close> returns at once: it sets a validation
  message and changes nothing else. No request is issued, no run is created, no timer is
  set, and the generating flag keeps its value (so it remains false when it was false).
\<close>

theorem handleSubmit_rejects:
  assumes "list_all is_js_whitespace (topic (formData st)) \<or> \<not> backendConnected st"
  shows "handleSubmit st =
           st\<lparr>error := (if list_all is_js_whitespace (topic (formData st))
                         then ''Please enter a topic for your video''
                         else ''Backend is not connected. Please make sure the API server is running.'')\<rparr>
         \<and> error (handleSubmit st) \<noteq> []
         \<and> fetches (handleSubmit st) = fetches st
         \<and> runs (handleSubmit st) = runs st
         \<and> intervals (handleSubmit st) = intervals st
         \<and> timeouts (handleSubmit st) = timeouts st
         \<and> isGenerating (handleSubmit st) = isGenerating st"
  using assms by (auto simp: handleSubmit_def trim_Nil_iff)

theorem handleSubmit_rejects_witness:
  "error (handleSubmit (ready\<lparr>formData := (formData ready)\<lparr>topic := [32, 9, 10]\<rparr>\<rparr>))
     = ''Please enter a topic for your video''
   \<and> isGenerating (handleSubmit (ready\<lparr>formData := (formData ready)\<lparr>topic := [32, 9, 10]\<rparr>\<rparr>)) = False
   \<and> fetches (handleSubmit (ready\<lparr>formData := (formData ready)\<lparr>topic := [32, 9, 10]\<rparr>\<rparr>)) = []
   \<and> error (handleSubmit (ready\<lparr>backendConnected := False\<rparr>))
     = ''Backend is not connected. Please make sure the API server is running.''
   \<and> isGenerating (handleSubmit (ready\<lparr>backendConnected := False\<rparr>)) = False
   \<and> fetches (handleSubmit (ready\<lparr>backendConnected := False\<rparr>)) = []"
  using handleSubmit_rejects [of "ready\<lparr>formData := (formData ready)\<lparr>topic := [32, 9, 10]\<rparr>\<rparr>"]
        handleSubmit_rejects [of "ready\<lparr>backendConnected := False\<rparr>"]
  by (simp add: ready_def initial_def is_js_whitespace_def)

subsection \<open>Running the scenarios\<close>

lemmas eval_simps = scenario_defs handler_defs Let_def show_nat.simps digit_def API_BASE_URL_def

lemma submitting_state:
  "runs submitting =
     [\<lparr>captured_formData = formData ready, captured_isGenerating = False,
       awaitingSubmit = True, currentJobId = None, pollInterval = None, timeoutTimer = None,
       pollCount = 0, consecutiveErrors = 0, pollsInFlight = 0, jobsInFlight = 0\<rparr>]"
  "fetches submitting = [(0, PostGenerateVideo (videoRequest (formData ready)))]"
  "isGenerating submitting = True"
  "error submitting = []"
  "intervals submitting = []"
  "timeouts submitting = []"
  by (simp_all add: submitting_def eval_simps)

lemma polling_state:
  "runs polling =
     [\<lparr>captured_formData = formData ready, captured_isGenerating = False,
       awaitingSubmit = False, currentJobId = Some ''job-1'', pollInterval = Some 1,
       timeoutTimer = Some 2, pollCount = 0, consecutiveErrors = 0, pollsInFlight = 0,
       jobsInFlight = 0\<rparr>]"
  "intervals polling = [1]"
  "unhandled polling = []"
  "error polling = []"
  "isGenerating polling = True"
  by (simp_all add: polling_def eval_simps)

lemma failed_once_state:
  "runs failed_once =
     [\<lparr>captured_formData = formData ready, captured_isGenerating = False,
       awaitingSubmit = False, currentJobId = Some ''job-1'', pollInterval = Some 1,
       timeoutTimer = Some 2, pollCount = 1, consecutiveErrors = 1, pollsInFlight = 0,
       jobsInFlight = 0\<rparr>]"
  "intervals failed_once = [1]"
  "unhandled failed_once = []"
  by (simp_all add: failed_once_def eval_simps)

lemma querying_state:
  "runs querying =
     [\<lparr>captured_formData = formData ready, captured_isGenerating = False,
       awaitingSubmit = False, currentJobId = Some ''job-1'', pollInterval = Some 1,
       timeoutTimer = Some 2, pollCount = 2, consecutiveErrors = 0, pollsInFlight = 1,
       jobsInFlight = 0\<rparr>]"
  "intervals querying = [1]"
  "progress querying = 50"
  "unhandled querying = []"
  "error querying = []"
  "isGenerating querying = True"
  by (simp_all add: querying_def eval_simps)

subsection \<open>The timeout\<close>

text \<open>A click that starts a run starts it with the flag clear, and that is what the
  closure keeps; a timeout whose closure holds a clear flag publishes nothing.\<close>

lemma clickSubmit_runs:
  "runs (clickSubmit st) = runs st
   \<or> (runs (clickSubmit st) = runs st @ [new_run st]
       \<and> captured_isGenerating (new_run st) = False)"
  by (simp add: clickSubmit_def handleSubmit_def realVideoGeneration_def new_run_def prim_defs)

lemma timeoutFired_stale_flag:
  assumes "lookup_run st r = Some c" and "\<not> captured_isGenerating c"
  shows "error (timeoutFired r st) = error st"
    and "isGenerating (timeoutFired r st) = isGenerating st"
  using assms by (simp_all add: timeoutFired_def prim_defs split: option.splits)

text \<open>
  No handler changes the flag a closure holds, and the button adds closures with a clear
  flag only. So from a page on which every run was started by the button (the page just
  mounted has no run at all), whatever events follow, no timeout ever shows a message or
  clears the generating flag.
\<close>

lemma flags_update:
  assumes "captured_isGenerating (f (runs st ! r)) = captured_isGenerating (runs st ! r)"
  shows "map captured_isGenerating ((runs st)[r := f (runs st ! r)]) = map captured_isGenerating (runs st)"
proof (cases "r < length (runs st)")
  case True
  with assms show ?thesis by (simp add: map_update list_update_same_conv)
next
  case False
  then have "length (runs st) \<le> r" by simp
  then show ?thesis by (simp add: list_update_beyond)
qed

lemma flags_prims:
  "flags (addDebugLog m t st) = flags st"
  "flags (clearInterval i st) = flags st"
  "flags (issue r q st) = flags st"
  "captured_isGenerating (f (runs st ! r)) = captured_isGenerating (runs st ! r)
     \<Longrightarrow> flags (update_run r f st) = flags st"
  by (simp_all add: flags_def addDebugLog_fields clearInterval_def issue_def update_run_def
        flags_update)

lemma flags_fields:
  "flags (st\<lparr>progress := p\<rparr>) = flags st"
  "flags (st\<lparr>currentStep := s\<rparr>) = flags st"
  "flags (st\<lparr>generatedVideo := v\<rparr>) = flags st"
  "flags (st\<lparr>isGenerating := b\<rparr>) = flags st"
  "flags (st\<lparr>error := e\<rparr>) = flags st"
  "flags (st\<lparr>unhandled := u\<rparr>) = flags st"
  "flags (st\<lparr>timeouts := ts\<rparr>) = flags st"
  "flags (st\<lparr>intervals := is\<rparr>) = flags st"
  "flags (st\<lparr>nextTimer := n\<rparr>) = flags st"
  "flags (st\<lparr>jobId := j\<rparr>) = flags st"
  "flags (st\<lparr>now := w\<rparr>) = flags st"
  by (simp_all add: flags_def)

lemma flags_longRunningCheck: "flags (longRunningCheck r st) = flags st"
  by (simp add: longRunningCheck_def checkAllJobs_def Let_def flags_prims)

lemma flags_pollVideoStatus: "flags (snd (pollVideoStatus jid outcome st)) = flags st"
  by (cases outcome rule: transport_failure.cases) (simp_all add: Let_def flags_prims)

lemma flags_pollCatch: "flags (pollCatch r t m st) = flags st"
  by (simp add: pollCatch_def Let_def flags_prims flags_fields)

lemma flags_pollTry: "flags (snd (pollTry r t jid status st)) = flags st"
  by (simp add: pollTry_def Let_def flags_prims flags_fields flags_longRunningCheck
        split: option.splits)

lemma flags_pollSettled: "flags (pollSettled r outcome st) = flags st"
  by (simp add: pollSettled_def split_beta Let_def flags_prims flags_pollVideoStatus
        flags_pollCatch flags_pollTry split: option.splits sum.splits)

lemma flags_pollTick: "flags (pollTick r st) = flags st"
  by (simp add: pollTick_def Let_def flags_prims split: option.splits)

lemma flags_jobsSettled: "flags (jobsSettled r outcome st) = flags st"
  by (simp add: jobsSettled_def Let_def flags_prims
        split: option.splits jobs_outcome.splits body.splits)

lemma flags_timeoutFired: "flags (timeoutFired r st) = flags st"
  by (simp add: timeoutFired_def Let_def flags_prims flags_fields split: option.splits)

lemma flags_startVideoGeneration: "flags (snd (startVideoGeneration outcome st)) = flags st"
  by (cases outcome) (simp_all add: Let_def flags_prims split: body.splits)

lemma flags_submitSettled: "flags (submitSettled r outcome st) = flags st"
  by (simp add: submitSettled_def split_beta Let_def flags_prims flags_fields
        flags_startVideoGeneration split: option.splits sum.splits)

lemma flags_clickSubmit:
  "flags (clickSubmit st) = flags st \<or> flags (clickSubmit st) = flags st @ [False]"
  by (simp add: clickSubmit_def handleSubmit_def realVideoGeneration_def new_run_def
        flags_def prim_defs)

lemma flags_step:
  "list_all (\<lambda>b. b = False) (flags st) \<Longrightarrow> list_all (\<lambda>b. b = False) (flags (step st e))"
proof (cases e)
  case ClickSubmit
  assume "list_all (\<lambda>b. b = False) (flags st)"
  with ClickSubmit flags_clickSubmit [of st] show ?thesis by auto
qed (simp_all add: flags_fields flags_submitSettled flags_pollTick flags_pollSettled
      flags_jobsSettled flags_timeoutFired)

lemma flags_run_events:
  "list_all (\<lambda>b. b = False) (flags st) \<Longrightarrow> list_all (\<lambda>b. b = False) (flags (run_events st evs))"
proof (induction evs arbitrary: st)
  case Nil
  then show ?case by (simp add: run_events_def)
next
  case (Cons e evs)
  from Cons.prems have "list_all (\<lambda>b. b = False) (flags (step st e))" by (rule flags_step)
  then have "list_all (\<lambda>b. b = False) (flags (run_events (step st e) evs))" by (rule Cons.IH)
  then show ?case by (simp add: run_events_def)
qed

lemma timeout_never_publishes:
  assumes "list_all (\<lambda>b. b = False) (flags st)"
  shows "error (timeoutFired r (run_events st evs)) = error (run_events st evs)"
    and "isGenerating (timeoutFired r (run_events st evs)) = isGenerating (run_events st evs)"
proof -
  let ?s = "run_events st evs"
  from assms have a: "list_all (\<lambda>b. b = False) (flags ?s)" by (rule flags_run_events)
  show "error (timeoutFired r ?s) = error ?s"
  proof (cases "lookup_run ?s r")
    case None
    then show ?thesis by (simp add: timeoutFired_def)
  next
    case (Some c)
    then have "r < length (runs ?s)" "runs ?s ! r = c" by (simp_all add: lookup_runD)
    with a have "\<not> captured_isGenerating c"
      by (auto simp: flags_def list_all_length)
    with Some show ?thesis by (rule timeoutFired_stale_flag(1))
  qed
  show "isGenerating (timeoutFired r ?s) = isGenerating ?s"
  proof (cases "lookup_run ?s r")
    case None
    then show ?thesis by (simp add: timeoutFired_def)
  next
    case (Some c)
    then have "r < length (runs ?s)" "runs ?s ! r = c" by (simp_all add: lookup_runD)
    with a have "\<not> captured_isGenerating c"
      by (auto simp: flags_def list_all_length)
    with Some show ?thesis by (rule timeoutFired_stale_flag(2))
  qed
qed

text \<open>
  Claim C1. The timeout callback reads \<^verbatim>\<open>isGenerating\<close> from its closure. The
  button is disabled while the flag is set, so every run is started from a render in which
  the flag is false, and that is the value the callback sees when it fires fifteen minutes
  later. A run is started, the service accepts it, one poll reports \<^verbatim>\<open>pending\<close> with
  progress 50, and the timeout fires before any terminal status: the interval is cleared
  (the next tick issues no query, one status query in all), but no message is shown and
  the page keeps saying that the video is being generated.
\<close>

theorem timeout_leaves_run_generating:
  "observe (run_events ready
      [ClickSubmit, SubmitSettled 0 (started ''job-1''),
       IntervalTick 0, PollSettled 0 (reports ''pending'' (Some 50)),
       TimeoutFired 0, IntervalTick 0])
   = \<lparr>shown_error = [], shown_generating = True, shown_progress = 50, shown_video = None,
      active_intervals = [], status_queries = 1, uncaught_errors = []\<rparr>"
  by (simp add: eval_simps)

subsection \<open>Failures while polling\<close>

text \<open>Whatever a status query brings, the interval callback leaves the error banner as
  it was.\<close>

lemma pollVideoStatus_error:
  "error (snd (pollVideoStatus jid outcome st)) = error st"
  by (cases outcome rule: transport_failure.cases) (simp_all add: prim_defs)

lemma interval_callback_keeps_error:
  "error (pollTick r st) = error st"
  "error (pollSettled r outcome st) = error st"
proof -
  show "error (pollTick r st) = error st"
    by (simp add: pollTick_def prim_defs split: option.splits)
  show "error (pollSettled r outcome st) = error st"
    by (simp add: pollSettled_def pollTry_def pollCatch_def split_beta prim_defs
          pollVideoStatus_error longRunningCheck_fields split: option.splits sum.splits)
qed

lemma jobsSettled_error: "error (jobsSettled r outcome st) = error st"
  by (simp add: jobsSettled_def prim_defs split: option.splits jobs_outcome.splits body.splits)

text \<open>On a page where every run was started by the button, the error banner changes
  only when the button is pressed or a submission settles: no poll and no timeout ever
  writes it.\<close>

lemma error_only_from_submission:
  assumes "list_all (\<lambda>b. b = False) (flags st)"
  shows "error (step st e) = error st \<or> e = ClickSubmit
       \<or> (\<exists>r outcome. e = SubmitSettled r outcome)"
proof (cases e)
  case (TimeoutFired r)
  from timeout_never_publishes(1) [OF assms, of r "[]"] TimeoutFired
  show ?thesis by (simp add: run_events_def)
qed (simp_all add: interval_callback_keeps_error jobsSettled_error)

text \<open>
  Claim C2. The third consecutive failed query makes the \<^verbatim>\<open>catch\<close> block of the
  interval callback clear the interval and throw. The callback is asynchronous and was
  called by the timer: the \<^verbatim>\<open>try\<close> of \<^verbatim>\<open>realVideoGeneration\<close> ended long before,
  so the error is caught by nothing, \<^verbatim>\<open>setError\<close> and \<^verbatim>\<open>setIsGenerating(false)\<close>
  do not run. After three unreachable polls no fourth query is issued (three status
  queries in all), the error banner is empty and the page keeps saying that the video is
  being generated.
\<close>

theorem polling_exhausted_not_published:
  "observe (run_events ready
      [ClickSubmit, SubmitSettled 0 (started ''job-1''),
       IntervalTick 0, PollSettled 0 unreachable,
       IntervalTick 0, PollSettled 0 unreachable,
       IntervalTick 0, PollSettled 0 unreachable,
       IntervalTick 0])
   = \<lparr>shown_error = [], shown_generating = True, shown_progress = 0, shown_video = None,
      active_intervals = [], status_queries = 3,
      uncaught_errors = [PollingFailedAfter 3 ''Failed to fetch'']\<rparr>"
  by (simp add: eval_simps)

text \<open>
  Claim C4. On the status \<^verbatim>\<open>failed\<close> the callback clears the interval and throws
  the service's error detail inside its own \<^verbatim>\<open>try\<close> block. The \<^verbatim>\<open>catch\<close> of the
  same callback takes it for a poll error, the first of three: it is logged and dropped.
  The cadence stops and nothing escapes the callback, but the detail never reaches the
  error banner and the page keeps saying that the video is being generated.
\<close>

theorem reported_failure_not_published:
  "observe (run_events ready
      [ClickSubmit, SubmitSettled 0 (started ''job-1''),
       IntervalTick 0, PollSettled 0 (reports_failure ''render crashed''),
       IntervalTick 0])
   = \<lparr>shown_error = [], shown_generating = True, shown_progress = 0, shown_video = None,
      active_intervals = [], status_queries = 1, uncaught_errors = []\<rparr>"
  by (simp add: eval_simps)

subsection \<open>One run at a time\<close>

text \<open>While the flag is set the button does nothing.\<close>

lemma clickSubmit_while_generating: "isGenerating st \<Longrightarrow> clickSubmit st = st"
  by (simp add: clickSubmit_def)

text \<open>
  Claim C8. \<^verbatim>\<open>handleSubmit\<close> neither looks at a run in progress nor clears its
  interval; what keeps a second run from starting is the button, disabled while
  \<^verbatim>\<open>isGenerating\<close> is set. Clearing an interval does not cancel the queries already
  in flight, and the callback of a finished run still clears the flag when its late answer
  says \<^verbatim>\<open>completed\<close>. Two ticks of the first run issue two queries; the second
  answer arrives first and completes the run; a second run is started and polls; the late
  answer of the first run clears the flag of the page; the button is enabled again and a
  third run is started while the second is polling. The interval timers 3 and 5 are
  active together, and each issues its status query.
\<close>

theorem two_polling_loops_active:
  "observe (run_events ready
      [ClickSubmit, SubmitSettled 0 (started ''job-1''),
       IntervalTick 0, IntervalTick 0, PollSettled 0 (reports ''completed'' (Some 100)),
       ClickSubmit, SubmitSettled 1 (started ''job-2''),
       PollSettled 0 (reports ''completed'' (Some 100)),
       ClickSubmit, SubmitSettled 2 (started ''job-3''),
       IntervalTick 1, IntervalTick 2])
   = \<lparr>shown_error = [], shown_generating = True, shown_progress = 0, shown_video = None,
      active_intervals = [3, 5], status_queries = 4, uncaught_errors = []\<rparr>"
  by (simp add: eval_simps)

subsection \<open>Status snapshots\<close>

lemma longRunningCheck_closure:
  assumes "r < length (runs st)"
  shows "pollInterval (runs (longRunningCheck r st) ! r) = pollInterval (runs st ! r)"
    and "currentJobId (runs (longRunningCheck r st) ! r) = currentJobId (runs st ! r)"
    and "consecutiveErrors (runs (longRunningCheck r st) ! r) = consecutiveErrors (runs st ! r)"
    and "pollsInFlight (runs (longRunningCheck r st) ! r) = pollsInFlight (runs st ! r)"
    and "pollCount (runs (longRunningCheck r st) ! r) = pollCount (runs st ! r)"
  using assms
  by (simp_all add: longRunningCheck_def checkAllJobs_def update_run_def issue_def
        addDebugLog_fields Let_def)

lemma pollTick_inactive:
  assumes "r < length (runs st)" and "pollInterval (runs st ! r) = Some t"
    and "t \<notin> set (intervals st)"
  shows "pollTick r st = st"
  using assms by (simp add: pollTick_def lookup_run_def split: option.splits)

lemmas settle_simps =
  pollSettled_def pollTry_def pollCatch_def lookup_run_def update_run_def clearInterval_def
  maxConsecutiveErrors_def addDebugLog_fields longRunningCheck_fields longRunningCheck_closure
  Let_def

text \<open>
  Claim C3, as stated, fails: the callback publishes whatever progress the snapshot
  carries. After a snapshot with progress 50, a snapshot with progress 30 lowers the
  progress the page shows.
\<close>

theorem progress_regression_published:
  "shown_progress (observe (run_events ready
      [ClickSubmit, SubmitSettled 0 (started ''job-1''),
       IntervalTick 0, PollSettled 0 (reports ''running'' (Some 50)),
       IntervalTick 0, PollSettled 0 (reports ''running'' (Some 30))]))
   < shown_progress (observe (run_events ready
      [ClickSubmit, SubmitSettled 0 (started ''job-1''),
       IntervalTick 0, PollSettled 0 (reports ''running'' (Some 50))]))"
  by (simp add: eval_simps)

text \<open>
  Claim C3, amended. For every run with a status query in flight and every snapshot the
  query brings, the progress shown afterwards is 100 when the snapshot reports
  \<^verbatim>\<open>completed\<close>, else the snapshot's own progress when it carries one (lower than the
  last published value or not), else the value shown before.
\<close>

theorem progress_follows_snapshot:
  assumes "lookup_run st r = Some c" and "pollInterval c = Some t" and "currentJobId c = Some jid"
    and "0 < pollsInFlight c"
  shows "progress (pollSettled r (PollOk code (Json status)) st) =
           (if js_status status = ''completed'' then 100
            else case js_progress status of Some p \<Rightarrow> p | None \<Rightarrow> progress st)"
proof -
  from assms(1) have r: "r < length (runs st)" "runs st ! r = c" by (simp_all add: lookup_runD)
  show ?thesis
    using assms(2-4) r by (simp add: settle_simps split: option.splits)
qed

theorem progress_follows_snapshot_witness:
  "progress querying = 50
   \<and> progress (pollSettled 0 (reports ''running'' (Some 30)) querying) = 30
   \<and> progress (pollSettled 0 (reports ''running'' None) querying) = 50
   \<and> progress (pollSettled 0 (reports ''completed'' (Some 30)) querying) = 100"
proof -
  have h1: "lookup_run querying 0 = Some (runs querying ! 0)"
    by (simp add: lookup_run_def querying_state)
  have h2: "pollInterval (runs querying ! 0) = Some 1" by (simp add: querying_state)
  have h3: "currentJobId (runs querying ! 0) = Some ''job-1''" by (simp add: querying_state)
  have h4: "0 < pollsInFlight (runs querying ! 0)" by (simp add: querying_state)
  note w = progress_follows_snapshot [OF h1 h2 h3 h4, of 200]
  from w [of "\<lparr>js_status = ''running'', js_progress = Some 30, js_current_step = None,
               js_error = None\<rparr>"]
       w [of "\<lparr>js_status = ''running'', js_progress = None, js_current_step = None,
               js_error = None\<rparr>"]
       w [of "\<lparr>js_status = ''completed'', js_progress = Some 30, js_current_step = None,
               js_error = None\<rparr>"]
  show ?thesis by (simp add: reports_def querying_state)
qed

text \<open>
  Claim C6. For every run with a status query in flight, a snapshot that reports
  \<^verbatim>\<open>completed\<close> ends the run: the progress shown is 100 whatever progress the snapshot
  carries, the generating flag is cleared, the video is recorded with the download locator
  of the job, the interval is cleared (a later tick does nothing), and no error is shown or
  thrown.
\<close>

theorem completed_status_completes_run:
  assumes "lookup_run st r = Some c" and "pollInterval c = Some t" and "currentJobId c = Some jid"
    and "0 < pollsInFlight c" and "js_status status = ''completed''"
  shows "progress (pollSettled r (PollOk code (Json status)) st) = 100
       \<and> isGenerating (pollSettled r (PollOk code (Json status)) st) = False
       \<and> generatedVideo (pollSettled r (PollOk code (Json status)) st) =
            Some \<lparr>title = topic (captured_formData c),
                  video_duration = show_nat (duration (captured_formData c)) @ '':00'',
                  video_jobId = jid,
                  downloadUrl = API_BASE_URL @ ''/api/video/'' @ jid,
                  video_status = ''completed''\<rparr>
       \<and> currentStep (pollSettled r (PollOk code (Json status)) st) = ''Video ready for download!''
       \<and> t \<notin> set (intervals (pollSettled r (PollOk code (Json status)) st))
       \<and> error (pollSettled r (PollOk code (Json status)) st) = error st
       \<and> unhandled (pollSettled r (PollOk code (Json status)) st) = unhandled st
       \<and> pollTick r (pollSettled r (PollOk code (Json status)) st)
           = pollSettled r (PollOk code (Json status)) st"
proof -
  let ?st' = "pollSettled r (PollOk code (Json status)) st"
  from assms(1) have r: "r < length (runs st)" "runs st ! r = c" by (simp_all add: lookup_runD)
  note a = assms(2-5) r
  have 1: "progress ?st' = 100" using a by (simp add: settle_simps split: option.splits)
  have 2: "isGenerating ?st' = False" using a by (simp add: settle_simps split: option.splits)
  have 3: "generatedVideo ?st' =
            Some \<lparr>title = topic (captured_formData c),
                  video_duration = show_nat (duration (captured_formData c)) @ '':00'',
                  video_jobId = jid,
                  downloadUrl = API_BASE_URL @ ''/api/video/'' @ jid,
                  video_status = ''completed''\<rparr>"
    using a by (simp add: settle_simps split: option.splits)
  have 4: "currentStep ?st' = ''Video ready for download!''"
    using a by (simp add: settle_simps split: option.splits)
  have 5: "t \<notin> set (intervals ?st')" using a by (simp add: settle_simps split: option.splits)
  have 6: "error ?st' = error st" using a by (simp add: settle_simps split: option.splits)
  have 7: "unhandled ?st' = unhandled st" using a by (simp add: settle_simps split: option.splits)
  have 8: "r < length (runs ?st')" using a by (simp add: settle_simps split: option.splits)
  have 9: "pollInterval (runs ?st' ! r) = Some t"
    using a by (simp add: settle_simps split: option.splits)
  have 10: "pollTick r ?st' = ?st'" using 8 9 5 by (rule pollTick_inactive)
  from 1 2 3 4 5 6 7 10 show ?thesis by blast
qed

theorem completed_status_completes_run_witness:
  "progress (pollSettled 0 (reports ''completed'' (Some 70)) querying) = 100
   \<and> isGenerating (pollSettled 0 (reports ''completed'' (Some 70)) querying) = False
   \<and> generatedVideo (pollSettled 0 (reports ''completed'' (Some 70)) querying) =
        Some \<lparr>title = [100, 101, 114, 105, 118, 97, 116, 105, 118, 101, 115],
              video_duration = ''5:00'', video_jobId = ''job-1'',
              downloadUrl = ''http://localhost:8000/api/video/job-1'',
              video_status = ''completed''\<rparr>
   \<and> intervals (pollSettled 0 (reports ''completed'' (Some 70)) querying) = []"
proof -
  have h1: "lookup_run querying 0 = Some (runs querying ! 0)"
    by (simp add: lookup_run_def querying_state)
  have h2: "pollInterval (runs querying ! 0) = Some 1" by (simp add: querying_state)
  have h3: "currentJobId (runs querying ! 0) = Some ''job-1''" by (simp add: querying_state)
  have h4: "0 < pollsInFlight (runs querying ! 0)" by (simp add: querying_state)
  have h5: "js_status \<lparr>js_status = ''completed'', js_progress = Some 70,
                       js_current_step = None, js_error = None\<rparr> = ''completed''" by simp
  have i: "intervals (pollSettled 0 (reports ''completed'' (Some 70)) querying) = []"
    by (simp add: reports_def querying_state settle_simps)
  from completed_status_completes_run [OF h1 h2 h3 h4 h5, of 200] i
  show ?thesis
    by (simp add: reports_def querying_state ready_fields show_nat.simps digit_def
          API_BASE_URL_def)
qed

subsection \<open>The counter of consecutive errors\<close>

lemmas round_simps = poll_round_def pollTick_def issue_def settle_simps

lemma three_in_a_row_Cons: "three_in_a_row xs \<Longrightarrow> three_in_a_row (x # xs)"
proof (cases xs rule: three_in_a_row.cases)
  case (1 a b c rest)
  assume "three_in_a_row xs"
  with 1 show ?thesis by simp
qed simp_all

lemma three_in_a_row_append: "three_in_a_row ys \<Longrightarrow> three_in_a_row (xs @ ys)"
  by (induction xs) (simp_all add: three_in_a_row_Cons)

lemma three_in_a_row_replicate:
  "3 \<le> k \<Longrightarrow> three_in_a_row (replicate k True @ bs)"
proof -
  assume "3 \<le> k"
  then obtain j where "k = Suc (Suc (Suc j))"
    by (metis Suc_le_D numeral_3_eq_3 Suc_le_mono)
  then show ?thesis by simp
qed

lemma not_three_in_a_row_small:
  "\<not> three_in_a_row (replicate k True @ bs) \<Longrightarrow> k < 3"
  using three_in_a_row_replicate [of k bs] by (cases "3 \<le> k") simp_all

lemma pollSettled_idle:
  assumes "r < length (runs st)" and "pollsInFlight (runs st ! r) = 0"
  shows "pollSettled r outcome st = st"
  using assms by (simp add: pollSettled_def lookup_run_def split: option.splits)

lemma poll_round_inactive:
  assumes "r < length (runs st)" and "pollInterval (runs st ! r) = Some t"
    and "pollsInFlight (runs st ! r) = 0" and "t \<notin> set (intervals st)"
  shows "poll_round r st outcome = st"
  using assms by (simp add: poll_round_def pollTick_inactive pollSettled_idle)

lemma poll_rounds_inactive:
  assumes "r < length (runs st)" and "pollInterval (runs st ! r) = Some t"
    and "pollsInFlight (runs st ! r) = 0" and "t \<notin> set (intervals st)"
  shows "poll_rounds r st outcomes = st"
  using assms by (induction outcomes) (simp_all add: poll_rounds_def poll_round_inactive)

lemma poll_round_frame:
  assumes "r < length (runs st)" and "pollInterval (runs st ! r) = Some t"
    and "currentJobId (runs st ! r) = Some jid" and "pollsInFlight (runs st ! r) = 0"
  shows "r < length (runs (poll_round r st outcome))"
    and "pollInterval (runs (poll_round r st outcome) ! r) = Some t"
    and "currentJobId (runs (poll_round r st outcome) ! r) = Some jid"
    and "pollsInFlight (runs (poll_round r st outcome) ! r) = 0"
proof -
  show "r < length (runs (poll_round r st outcome))"
    using assms
    by (cases outcome rule: transport_failure.cases)
       (simp_all add: round_simps split: option.splits)
  show "pollInterval (runs (poll_round r st outcome) ! r) = Some t"
    using assms
    by (cases outcome rule: transport_failure.cases)
       (simp_all add: round_simps split: option.splits)
  show "currentJobId (runs (poll_round r st outcome) ! r) = Some jid"
    using assms
    by (cases outcome rule: transport_failure.cases)
       (simp_all add: round_simps split: option.splits)
  show "pollsInFlight (runs (poll_round r st outcome) ! r) = 0"
    using assms
    by (cases outcome rule: transport_failure.cases)
       (simp_all add: round_simps split: option.splits)
qed

lemma poll_round_failure:
  assumes "r < length (runs st)" and "pollInterval (runs st ! r) = Some t"
    and "currentJobId (runs st ! r) = Some jid" and "pollsInFlight (runs st ! r) = 0"
    and "t \<in> set (intervals st)" and "transport_failure outcome"
  shows "consecutiveErrors (runs (poll_round r st outcome) ! r) = consecutiveErrors (runs st ! r) + 1"
    and "consecutiveErrors (runs st ! r) + 1 < 3 \<Longrightarrow>
           unhandled (poll_round r st outcome) = unhandled st"
proof -
  show "consecutiveErrors (runs (poll_round r st outcome) ! r) = consecutiveErrors (runs st ! r) + 1"
    using assms
    by (cases outcome rule: transport_failure.cases)
       (simp_all add: round_simps split: option.splits)
  show "unhandled (poll_round r st outcome) = unhandled st"
    if "consecutiveErrors (runs st ! r) + 1 < 3"
    using assms that
    by (cases outcome rule: transport_failure.cases)
       (simp_all add: round_simps split: option.splits)
qed

lemma poll_round_status:
  assumes "r < length (runs st)" and "pollInterval (runs st ! r) = Some t"
    and "currentJobId (runs st ! r) = Some jid" and "pollsInFlight (runs st ! r) = 0"
    and "t \<in> set (intervals st)"
  shows "consecutiveErrors (runs (poll_round r st (PollOk code (Json status))) ! r) =
           (if js_status status = ''failed'' then 1 else 0)"
    and "unhandled (poll_round r st (PollOk code (Json status))) = unhandled st"
    and "js_status status = ''failed'' \<Longrightarrow>
           t \<notin> set (intervals (poll_round r st (PollOk code (Json status))))"
  using assms by (simp_all add: round_simps split: option.splits)


lemma poll_rounds_Cons:
  "poll_rounds r st (outcome # outcomes) = poll_rounds r (poll_round r st outcome) outcomes"
  by (simp add: poll_rounds_def)

lemma poll_rounds_safe:
  assumes "r < length (runs st)" and "pollInterval (runs st ! r) = Some t"
    and "currentJobId (runs st ! r) = Some jid" and "pollsInFlight (runs st ! r) = 0"
    and "\<not> three_in_a_row (replicate (consecutiveErrors (runs st ! r)) True
                              @ map transport_failure outcomes)"
  shows "unhandled (poll_rounds r st outcomes) = unhandled st
       \<and> consecutiveErrors (runs (poll_rounds r st outcomes) ! r) < 3"
  using assms
proof (induction outcomes arbitrary: st)
  case Nil
  then have "consecutiveErrors (runs st ! r) < 3"
    using not_three_in_a_row_small [of "consecutiveErrors (runs st ! r)" "[]"] by simp
  then show ?case by (simp add: poll_rounds_def)
next
  case (Cons outcome outcomes)
  let ?k = "consecutiveErrors (runs st ! r)"
  let ?st' = "poll_round r st outcome"
  note I = Cons.prems(1-4)
  have small: "?k < 3"
    using Cons.prems(5) by (rule not_three_in_a_row_small)
  show ?case
  proof (cases "t \<in> set (intervals st)")
    case False
    with I(1,2,4) have "poll_rounds r st (outcome # outcomes) = st"
      by (intro poll_rounds_inactive [where t = t])
    with small show ?thesis by simp
  next
    case active: True
    note F = poll_round_frame [OF I, of outcome]
    show ?thesis
    proof (cases "transport_failure outcome")
      case True
      have k': "consecutiveErrors (runs ?st' ! r) = ?k + 1"
        using I active True by (rule poll_round_failure(1))
      have eq: "replicate ?k True @ map transport_failure (outcome # outcomes)
                  = replicate (?k + 1) True @ map transport_failure outcomes"
        using True by (simp add: replicate_app_Cons_same)
      have n3: "\<not> three_in_a_row (replicate (?k + 1) True @ map transport_failure outcomes)"
        using Cons.prems(5) unfolding eq .
      then have "?k + 1 < 3" by (rule not_three_in_a_row_small)
      then have u: "unhandled ?st' = unhandled st"
        using poll_round_failure(2) [OF I active True] by simp
      from n3 k' have "\<not> three_in_a_row (replicate (consecutiveErrors (runs ?st' ! r)) True
                              @ map transport_failure outcomes)" by simp
      from Cons.IH [OF F this] u show ?thesis by (simp add: poll_rounds_Cons)
    next
      case False
      then obtain code status where o: "outcome = PollOk code (Json status)"
        by (cases outcome rule: transport_failure.cases) simp_all
      have u: "unhandled ?st' = unhandled st"
        unfolding o using I active by (rule poll_round_status(2))
      have k': "consecutiveErrors (runs ?st' ! r) = (if js_status status = ''failed'' then 1 else 0)"
        unfolding o using I active by (rule poll_round_status(1))
      show ?thesis
      proof (cases "js_status status = ''failed''")
        case True
        have "t \<notin> set (intervals ?st')"
          unfolding o using I active True by (rule poll_round_status(3))
        with F(1,2,4) have "poll_rounds r ?st' outcomes = ?st'"
          by (intro poll_rounds_inactive [where t = t])
        with u k' True show ?thesis by (simp add: poll_rounds_Cons)
      next
        case ok: False
        have "\<not> three_in_a_row (map transport_failure outcomes)"
          using Cons.prems(5)
            three_in_a_row_append [of "map transport_failure outcomes"
              "replicate ?k True @ [transport_failure outcome]"]
          by auto
        with k' ok have "\<not> three_in_a_row (replicate (consecutiveErrors (runs ?st' ! r)) True
                              @ map transport_failure outcomes)" by simp
        from Cons.IH [OF F this] u show ?thesis by (simp add: poll_rounds_Cons)
      qed
    qed
  qed
qed

lemma pollTry_resets:
  assumes "r < length (runs st)"
  shows "consecutiveErrors (runs (snd (pollTry r t jid status st)) ! r) = 0"
  using assms by (simp add: settle_simps split: option.splits)

text \<open>
  What holds of the counter. The first statement of the \<^verbatim>\<open>try\<close> block after a
  status has been received sets \<^verbatim>\<open>consecutiveErrors\<close> to zero, and nothing in the
  rest of the block changes it. After a tick of an active interval whose query settles
  before the next tick, the whole callback leaves the counter at zero when the status is
  not \<^verbatim>\<open>failed\<close>. For a run between two polls and every sequence of polls, each
  settled before the next tick, in which no three transport failures follow one another
  (counting the failures the counter already holds), the error of exhausted polling is
  never thrown and the counter stays below the threshold 3; the alternating sequence
  failure, success, failure, success, failure is one of them.
\<close>

lemma success_resets_consecutiveErrors:
  assumes "lookup_run st r = Some c" and "pollInterval c = Some t" and "currentJobId c = Some jid"
    and "pollsInFlight c = 0"
    and "\<not> three_in_a_row (replicate (consecutiveErrors c) True @ map transport_failure outcomes)"
  shows "consecutiveErrors (runs (snd (pollTry r t jid status st)) ! r) = 0
       \<and> (t \<in> set (intervals st) \<and> js_status status \<noteq> ''failed'' \<longrightarrow>
            consecutiveErrors (runs (poll_round r st (PollOk code (Json status))) ! r) = 0)
       \<and> unhandled (poll_rounds r st outcomes) = unhandled st
       \<and> consecutiveErrors (runs (poll_rounds r st outcomes) ! r) < maxConsecutiveErrors"
proof -
  from assms(1) have r: "r < length (runs st)" "runs st ! r = c" by (simp_all add: lookup_runD)
  have "unhandled (poll_rounds r st outcomes) = unhandled st
       \<and> consecutiveErrors (runs (poll_rounds r st outcomes) ! r) < 3"
    using r assms(2-5) by (intro poll_rounds_safe [where t = t and jid = jid]) simp_all
  moreover have "consecutiveErrors (runs (snd (pollTry r t jid status st)) ! r) = 0"
    using r(1) by (rule pollTry_resets)
  moreover have "consecutiveErrors (runs (poll_round r st (PollOk code (Json status))) ! r) = 0"
    if "t \<in> set (intervals st)" and "js_status status \<noteq> ''failed''"
    using poll_round_status(1) [of r st t jid code status] r assms(2-4) that by simp
  ultimately show ?thesis by (simp add: maxConsecutiveErrors_def)
qed

lemma alternating_failures_do_not_exhaust:
  "unhandled (poll_rounds 0 polling
      [unreachable, reports ''running'' (Some 10), unreachable, reports ''running'' (Some 20),
       unreachable]) = []
   \<and> consecutiveErrors (runs (poll_rounds 0 polling
      [unreachable, reports ''running'' (Some 10), unreachable, reports ''running'' (Some 20),
       unreachable]) ! 0) < 3
   \<and> consecutiveErrors (runs failed_once ! 0) = 1
   \<and> consecutiveErrors (runs (poll_round 0 failed_once (reports ''running'' (Some 10))) ! 0) = 0"
proof -
  have h1: "lookup_run polling 0 = Some (runs polling ! 0)"
    by (simp add: lookup_run_def polling_state)
  have h2: "pollInterval (runs polling ! 0) = Some 1" by (simp add: polling_state)
  have h3: "currentJobId (runs polling ! 0) = Some ''job-1''" by (simp add: polling_state)
  have h4: "pollsInFlight (runs polling ! 0) = 0" by (simp add: polling_state)
  have h5: "\<not> three_in_a_row (replicate (consecutiveErrors (runs polling ! 0)) True
              @ map transport_failure
                  [unreachable, reports ''running'' (Some 10), unreachable,
                   reports ''running'' (Some 20), unreachable])"
    by (simp add: polling_state unreachable_def reports_def)
  have g1: "lookup_run failed_once 0 = Some (runs failed_once ! 0)"
    by (simp add: lookup_run_def failed_once_state)
  have g2: "pollInterval (runs failed_once ! 0) = Some 1" by (simp add: failed_once_state)
  have g3: "currentJobId (runs failed_once ! 0) = Some ''job-1''"
    by (simp add: failed_once_state)
  have g4: "pollsInFlight (runs failed_once ! 0) = 0" by (simp add: failed_once_state)
  have g5: "\<not> three_in_a_row (replicate (consecutiveErrors (runs failed_once ! 0)) True
              @ map transport_failure [])"
    by (simp add: failed_once_state numeral_eq_Suc)
  from success_resets_consecutiveErrors [OF h1 h2 h3 h4 h5]
       success_resets_consecutiveErrors [OF g1 g2 g3 g4 g5, of
         "\<lparr>js_status = ''running'', js_progress = Some 10, js_current_step = None,
           js_error = None\<rparr>" 200]
  show ?thesis
    by (simp add: polling_state failed_once_state maxConsecutiveErrors_def reports_def)
qed

text \<open>
  Claim C5. Every successful status query is meant to reset the counter (the code's own
  comment: ``Reset error counter on success''), so that only transport failures that
  follow one another reach the threshold. A successful query that reports \<^verbatim>\<open>failed\<close>
  does not leave the counter at zero: the \<^verbatim>\<open>throw\<close> for that status is inside the
  \<^verbatim>\<open>try\<close> block, the \<^verbatim>\<open>catch\<close> of the same callback counts it as a poll error,
  and the counter is 1. With three queries in flight (three ticks, each answer later than
  the next tick), the answers \<^verbatim>\<open>failed\<close>, transport failure, transport failure bring
  the counter to 3 and the error of exhausted polling is thrown, after a successful query
  and two transport failures only.
\<close>

theorem failed_status_counts_as_poll_error:
  "consecutiveErrors (runs (run_events ready
      [ClickSubmit, SubmitSettled 0 (started ''job-1''),
       IntervalTick 0, PollSettled 0 (reports_failure ''render crashed'')]) ! 0) = 1
   \<and> observe (run_events ready
      [ClickSubmit, SubmitSettled 0 (started ''job-1''),
       IntervalTick 0, IntervalTick 0, IntervalTick 0,
       PollSettled 0 (reports_failure ''render crashed''),
       PollSettled 0 unreachable, PollSettled 0 unreachable])
     = \<lparr>shown_error = [], shown_generating = True, shown_progress = 0, shown_video = None,
        active_intervals = [], status_queries = 3,
        uncaught_errors = [PollingFailedAfter 3 ''Failed to fetch'']\<rparr>"
  by (simp add: eval_simps)

subsection \<open>Failed submissions\<close>

lemma longRunningCheck_other:
  assumes "r' \<noteq> r"
  shows "runs (longRunningCheck r' st) ! r = runs st ! r"
    and "filter (\<lambda>q. fst q = r) (fetches (longRunningCheck r' st)) = filter (\<lambda>q. fst q = r) (fetches st)"
  using assms
  by (simp_all add: longRunningCheck_def checkAllJobs_def prim_defs)

lemma pollVideoStatus_frame:
  "runs (snd (pollVideoStatus jid outcome st)) = runs st"
  "fetches (snd (pollVideoStatus jid outcome st)) = fetches st"
  by (cases outcome rule: transport_failure.cases; simp add: prim_defs)+

lemma pollCatch_other:
  assumes "r' \<noteq> r"
  shows "runs (pollCatch r' t m st) ! r = runs st ! r"
    and "length (runs (pollCatch r' t m st)) = length (runs st)"
    and "fetches (pollCatch r' t m st) = fetches st"
  using assms by (simp_all add: pollCatch_def prim_defs)

lemma pollTry_other:
  assumes "r' \<noteq> r"
  shows "runs (snd (pollTry r' t jid status st)) ! r = runs st ! r"
    and "length (runs (snd (pollTry r' t jid status st))) = length (runs st)"
    and "filter (\<lambda>q. fst q = r) (fetches (snd (pollTry r' t jid status st))) = filter (\<lambda>q. fst q = r) (fetches st)"
  using assms
  by (simp_all add: pollTry_def prim_defs longRunningCheck_other longRunningCheck_fields
        split: option.splits)

lemma pollSettled_other:
  assumes "r' \<noteq> r"
  shows "runs (pollSettled r' outcome st) ! r = runs st ! r"
    and "length (runs (pollSettled r' outcome st)) = length (runs st)"
    and "run_fetches r (pollSettled r' outcome st) = run_fetches r st"
  using assms
  by (simp_all add: pollSettled_def run_fetches_def split_beta Let_def update_run_def
       pollVideoStatus_frame pollCatch_other pollTry_other
       split: option.splits sum.splits)

lemma pollTick_other:
  assumes "r' \<noteq> r"
  shows "runs (pollTick r' st) ! r = runs st ! r"
    and "length (runs (pollTick r' st)) = length (runs st)"
    and "run_fetches r (pollTick r' st) = run_fetches r st"
  using assms
  by (simp_all add: pollTick_def run_fetches_def prim_defs split: option.splits)

lemma jobsSettled_frame:
  shows "length (runs (jobsSettled r' outcome st)) = length (runs st)"
    and "run_fetches r (jobsSettled r' outcome st) = run_fetches r st"
    and "r' \<noteq> r \<Longrightarrow> runs (jobsSettled r' outcome st) ! r = runs st ! r"
  by (simp_all add: jobsSettled_def run_fetches_def prim_defs
        split: option.splits jobs_outcome.splits body.splits)

lemma timeoutFired_frame:
  shows "runs (timeoutFired r' st) = runs st"
    and "run_fetches r (timeoutFired r' st) = run_fetches r st"
  by (simp_all add: timeoutFired_def run_fetches_def prim_defs split: option.splits)

lemma startVideoGeneration_frame:
  "runs (snd (startVideoGeneration outcome st)) = runs st"
  "fetches (snd (startVideoGeneration outcome st)) = fetches st"
  "intervals (snd (startVideoGeneration outcome st)) = intervals st"
  "timeouts (snd (startVideoGeneration outcome st)) = timeouts st"
  "nextTimer (snd (startVideoGeneration outcome st)) = nextTimer st"
  by (cases outcome; simp add: prim_defs split: body.splits)+

lemma submitSettled_other:
  assumes "r' \<noteq> r"
  shows "runs (submitSettled r' outcome st) ! r = runs st ! r"
    and "length (runs (submitSettled r' outcome st)) = length (runs st)"
    and "run_fetches r (submitSettled r' outcome st) = run_fetches r st"
  using assms
  by (simp_all add: submitSettled_def run_fetches_def split_beta prim_defs
        startVideoGeneration_frame split: option.splits sum.splits)

lemma clickSubmit_frame:
  assumes "r < length (runs st)"
  shows "runs (clickSubmit st) ! r = runs st ! r"
    and "length (runs st) \<le> length (runs (clickSubmit st))"
    and "run_fetches r (clickSubmit st) = run_fetches r st"
  using assms
  by (simp_all add: clickSubmit_def handleSubmit_def realVideoGeneration_def run_fetches_def
        prim_defs nth_append)

text \<open>A run whose submission has failed: every event of its own finds nothing to do.\<close>

lemma finished_run_own_events:
  assumes "r < length (runs st)" and "\<not> awaitingSubmit (runs st ! r)"
    and "pollInterval (runs st ! r) = None" and "jobsInFlight (runs st ! r) = 0"
  shows "submitSettled r so st = st" and "pollTick r st = st" and "pollSettled r po st = st"
    and "jobsSettled r jo st = st" and "timeoutFired r st = st"
  using assms
  by (simp_all add: submitSettled_def pollTick_def pollSettled_def jobsSettled_def
        timeoutFired_def lookup_run_def)

lemma finished_run_step:
  assumes "r < length (runs st)" and "\<not> awaitingSubmit (runs st ! r)"
    and "pollInterval (runs st ! r) = None" and "jobsInFlight (runs st ! r) = 0"
  shows "r < length (runs (step st e)) \<and> runs (step st e) ! r = runs st ! r
       \<and> run_fetches r (step st e) = run_fetches r st"
proof (cases e)
  case (Clock s)
  then show ?thesis using assms(1) by (simp add: run_fetches_def)
next
  case ClickSubmit
  then show ?thesis using assms(1) clickSubmit_frame [OF assms(1)] by simp
next
  case (SubmitSettled r' so)
  then show ?thesis
    using assms finished_run_own_events(1) [OF assms]
    by (cases "r' = r") (simp_all add: submitSettled_other)
next
  case (IntervalTick r')
  then show ?thesis
    using assms finished_run_own_events(2) [OF assms]
    by (cases "r' = r") (simp_all add: pollTick_other)
next
  case (PollSettled r' po)
  then show ?thesis
    using assms finished_run_own_events(3) [OF assms]
    by (cases "r' = r") (simp_all add: pollSettled_other)
next
  case (JobsSettled r' jo)
  then show ?thesis
    using assms finished_run_own_events(4) [OF assms]
    by (cases "r' = r") (simp_all add: jobsSettled_frame)
next
  case (TimeoutFired r')
  then show ?thesis
    using assms by (simp add: timeoutFired_frame)
qed

lemma finished_run_events:
  assumes "r < length (runs st)" and "\<not> awaitingSubmit (runs st ! r)"
    and "pollInterval (runs st ! r) = None" and "jobsInFlight (runs st ! r) = 0"
  shows "run_fetches r (run_events st evs) = run_fetches r st"
  using assms
proof (induction evs arbitrary: st)
  case Nil
  then show ?case by (simp add: run_events_def)
next
  case (Cons e evs)
  from finished_run_step [OF Cons.prems, of e]
  have s: "r < length (runs (step st e))" "runs (step st e) ! r = runs st ! r"
    "run_fetches r (step st e) = run_fetches r st" by simp_all
  have "run_fetches r (run_events (step st e) evs) = run_fetches r (step st e)"
    using s Cons.prems by (intro Cons.IH) simp_all
  with s show ?case by (simp add: run_events_def)
qed

text \<open>
  Claim C7, as stated, fails. When the exchange itself breaks there is no reason of the
  service, and the banner shows neither of the fixed texts of the code: it shows the
  message of the exception. A response 502 whose body is not JSON makes
  \<^verbatim>\<open>response.json()\<close> throw, and the banner is the parser's message; a rejected
  \<^verbatim>\<open>fetch\<close> puts the message of its error there.
\<close>

theorem broken_exchange_shows_exception_text:
  "error (submitSettled 0 (SubmitNotOk 502 (NotJson ''Unexpected end of JSON input'')) submitting)
     = ''Unexpected end of JSON input''
   \<and> error (submitSettled 0 (SubmitNotOk 502 (NotJson ''Unexpected end of JSON input'')) submitting)
     \<notin> set generic_reasons
   \<and> error (submitSettled 0 (SubmitNetworkError ''Failed to fetch'') submitting)
     = ''Failed to fetch''
   \<and> error (submitSettled 0 (SubmitNetworkError ''Failed to fetch'') submitting)
     \<notin> set generic_reasons"
  by (simp add: submitSettled_def lookup_run_def submitting_state prim_defs generic_reasons_def)

text \<open>
  Claim C7, amended. For every run that waits for its submission and every way the
  submission can fail, \<^verbatim>\<open>startVideoGeneration\<close> throws to its caller, which in the
  same turn shows the reason and clears the generating flag. The reason is the
  \<^verbatim>\<open>detail\<close> of the service when its rejection carries a non-empty one and the fixed
  text \<^verbatim>\<open>Failed to start video generation\<close> when it carries none; when the exchange
  itself breaks (the request is rejected, or the body of the response, successful or not,
  is not JSON) it is the message of that exception, and the fixed text
  \<^verbatim>\<open>Failed to generate video. Please try again.\<close> only when that message is empty.
  No timer is created and no request is issued, and whatever happens afterwards (events of
  this run or of others), the run never issues a request again: no second POST and no
  status query.
\<close>

theorem submission_failure_reported:
  assumes "lookup_run st r = Some c" and "awaitingSubmit c" and "pollInterval c = None"
    and "jobsInFlight c = 0" and "submit_failure outcome"
  shows "isl (fst (startVideoGeneration outcome st))
       \<and> error (submitSettled r (SubmitNotOk code (Json errorData)) st) =
            (case detail errorData of
               Some d \<Rightarrow> if d = [] then ''Failed to start video generation'' else d
             | None \<Rightarrow> ''Failed to start video generation'')
       \<and> error (submitSettled r (SubmitNotOk code (NotJson m)) st) =
            (if m = [] then ''Failed to generate video. Please try again.'' else m)
       \<and> error (submitSettled r (SubmitOk code (NotJson m)) st) =
            (if m = [] then ''Failed to generate video. Please try again.'' else m)
       \<and> error (submitSettled r (SubmitNetworkError m) st) =
            (if m = [] then ''Failed to generate video. Please try again.'' else m)
       \<and> isGenerating (submitSettled r outcome st) = False
       \<and> intervals (submitSettled r outcome st) = intervals st
       \<and> timeouts (submitSettled r outcome st) = timeouts st
       \<and> fetches (submitSettled r outcome st) = fetches st
       \<and> run_fetches r (run_events (submitSettled r outcome st) evs) = run_fetches r st"
proof -
  let ?st' = "submitSettled r outcome st"
  from assms(1) have r: "r < length (runs st)" "runs st ! r = c" by (simp_all add: lookup_runD)
  note a = r assms(2-5)
  note defs = submitSettled_def lookup_run_def prim_defs
  have 1: "isl (fst (startVideoGeneration outcome st))"
    using assms(5)
    by (cases outcome rule: submit_failure.cases) (simp_all add: Let_def split: body.splits)
  have e1: "error (submitSettled r (SubmitNotOk code (Json errorData)) st) =
            (case detail errorData of
               Some d \<Rightarrow> if d = [] then ''Failed to start video generation'' else d
             | None \<Rightarrow> ''Failed to start video generation'')"
    using a by (simp add: defs split: option.splits)
  have e2: "error (submitSettled r (SubmitNotOk code (NotJson m)) st) =
            (if m = [] then ''Failed to generate video. Please try again.'' else m)"
    using a by (simp add: defs)
  have e3: "error (submitSettled r (SubmitOk code (NotJson m)) st) =
            (if m = [] then ''Failed to generate video. Please try again.'' else m)"
    using a by (simp add: defs)
  have e4: "error (submitSettled r (SubmitNetworkError m) st) =
            (if m = [] then ''Failed to generate video. Please try again.'' else m)"
    using a by (simp add: defs)
  have 3: "isGenerating ?st' = False"
    using a by (cases outcome rule: submit_failure.cases)
      (simp_all add: defs split: option.splits body.splits)
  have 4: "intervals ?st' = intervals st"
    using a by (cases outcome rule: submit_failure.cases)
      (simp_all add: defs split: option.splits body.splits)
  have 5: "timeouts ?st' = timeouts st"
    using a by (cases outcome rule: submit_failure.cases)
      (simp_all add: defs split: option.splits body.splits)
  have 6: "fetches ?st' = fetches st"
    using a by (cases outcome rule: submit_failure.cases)
      (simp_all add: defs split: option.splits body.splits)
  have 7: "r < length (runs ?st')"
    using a by (cases outcome rule: submit_failure.cases)
      (simp_all add: defs split: option.splits body.splits)
  have 8: "runs ?st' ! r = c\<lparr>awaitingSubmit := False\<rparr>"
    using a by (cases outcome rule: submit_failure.cases)
      (simp_all add: defs split: option.splits body.splits)
  have "run_fetches r (run_events ?st' evs) = run_fetches r ?st'"
    using 7 8 assms(3,4) by (intro finished_run_events) simp_all
  with 6 have 9: "run_fetches r (run_events ?st' evs) = run_fetches r st"
    by (simp add: run_fetches_def)
  from 1 e1 e2 e3 e4 3 4 5 6 9 show ?thesis by blast
qed

theorem submission_failure_reported_witness:
  "error (submitSettled 0 (rejected ''invalid topic'') submitting) = ''invalid topic''
   \<and> error (submitSettled 0 (SubmitNotOk 400 (Json \<lparr>detail = None\<rparr>)) submitting)
     = ''Failed to start video generation''
   \<and> error (submitSettled 0 (SubmitNotOk 400 (NotJson ''Unexpected end of JSON input''))
        submitting) = ''Unexpected end of JSON input''
   \<and> isGenerating (submitSettled 0 (rejected ''invalid topic'') submitting) = False
   \<and> intervals (submitSettled 0 (rejected ''invalid topic'') submitting) = []
   \<and> run_fetches 0 (run_events (submitSettled 0 (rejected ''invalid topic'') submitting)
        [IntervalTick 0, TimeoutFired 0, PollSettled 0 unreachable])
      = [PostGenerateVideo (videoRequest (formData ready))]"
proof -
  have h1: "lookup_run submitting 0 = Some (runs submitting ! 0)"
    by (simp add: lookup_run_def submitting_state)
  have h2: "awaitingSubmit (runs submitting ! 0)" by (simp add: submitting_state)
  have h3: "pollInterval (runs submitting ! 0) = None" by (simp add: submitting_state)
  have h4: "jobsInFlight (runs submitting ! 0) = 0" by (simp add: submitting_state)
  have h5: "submit_failure (rejected ''invalid topic'')" by (simp add: rejected_def)
  note w = submission_failure_reported [OF h1 h2 h3 h4 h5,
      where evs = "[IntervalTick 0, TimeoutFired 0, PollSettled 0 unreachable]"
        and code = 400 and m = "''Unexpected end of JSON input''"]
  from w [where errorData = "\<lparr>detail = Some ''invalid topic''\<rparr>"]
       w [where errorData = "\<lparr>detail = None\<rparr>"]
  show ?thesis by (simp add: rejected_def submitting_state run_fetches_def)
qed

end
